theory Spec2Isabelle
  imports Complex_Main "HOL-Library.Multiset" "HOL-Library.Sublist"
begin

section \<open>Texts\<close>

text \<open>
  Python strings are modelled as lists of characters with codes below 256. The three
  characters that the script writes or searches for and that a string literal cannot hold
  directly get names.
\<close>

definition newline :: char where
  "newline = CHR 0x0A"

definition backslash :: char where
  "backslash = CHR 0x5C"

definition squote :: char where
  "squote = CHR 0x27"

text \<open>
  The two characters that the escape \<^verbatim>\<open>\\n\<close> denotes, both in the raw regular
  expressions and in the ordinary format strings of the script: a backslash and the letter n.
\<close>

definition backslash_n :: string where
  "backslash_n = [backslash, CHR ''n'']"

definition isdigit :: "char \<Rightarrow> bool" where
  "isdigit c = (c \<in> set ''0123456789'')"

text \<open>The characters below 256 for which \<^verbatim>\<open>str.isspace\<close> holds.\<close>

definition isspace :: "char \<Rightarrow> bool" where
  "isspace c =
     (c \<in> set [CHR 0x09, CHR 0x0A, CHR 0x0B, CHR 0x0C, CHR 0x0D, CHR 0x1C, CHR 0x1D,
               CHR 0x1E, CHR 0x1F, CHR 0x20, CHR 0x85, CHR 0xA0])"

definition lower :: "char \<Rightarrow> char" where
  "lower c =
     (case map_of (zip ''ABCDEFGHIJKLMNOPQRSTUVWXYZ'' ''abcdefghijklmnopqrstuvwxyz'') c of
        Some l \<Rightarrow> l
      | None \<Rightarrow> c)"

text \<open>\<^verbatim>\<open>s.strip()\<close>.\<close>

definition strip :: "string \<Rightarrow> string" where
  "strip s = rev (dropWhile isspace (rev (dropWhile isspace s)))"

section \<open>Regular expressions\<close>

text \<open>
  The part of Python's \<^verbatim>\<open>re\<close> that the six patterns of the script use. An atom
  matches one character: a literal, \<^verbatim>\<open>\d\<close>, \<^verbatim>\<open>.\<close> (anything but a line
  break, the script never passes DOTALL) or \<^verbatim>\<open>\s\<close>. The flag \<open>ic\<close> is
  \<^verbatim>\<open>re.IGNORECASE\<close>.
\<close>

datatype atom = Lit char | Digit | Any | Space

fun atom_ok :: "bool \<Rightarrow> atom \<Rightarrow> char \<Rightarrow> bool" where
  "atom_ok ic (Lit x) c = (if ic then lower c = lower x else c = x)"
| "atom_ok ic Digit c = isdigit c"
| "atom_ok ic Any c = (c \<noteq> newline)"
| "atom_ok ic Space c = isspace c"

text \<open>
  \<open>Lazy_Star a\<close> is \<^verbatim>\<open>a*?\<close>, \<open>Star a\<close> is \<^verbatim>\<open>a*\<close>, \<open>Plus a\<close> is
  \<^verbatim>\<open>a+\<close>, \<open>Opt r\<close> is \<^verbatim>\<open>(?:r)?\<close> and \<open>Group r\<close> is the capturing group
  \<^verbatim>\<open>(r)\<close>. Every pattern of the script has exactly one capturing group.
\<close>

datatype regex =
    Eps
  | Atom atom
  | Seq regex regex
  | Lazy_Star atom
  | Star atom
  | Plus atom
  | Opt regex
  | Group regex

text \<open>
  Backtracking is modelled by the list of all ways to match, in the order in which the
  backtracking matcher tries them: a thread is the text still to be read and the text
  captured by the group. A lazy quantifier tries the shorter match first, a greedy one the
  longer. The match that \<^verbatim>\<open>re\<close> reports is the first thread.
\<close>

type_synonym thread = "string \<times> string"

fun rmatch :: "bool \<Rightarrow> regex \<Rightarrow> string \<Rightarrow> string \<Rightarrow> thread list" where
  "rmatch ic Eps s g = [(s, g)]"
| "rmatch ic (Atom a) [] g = []"
| "rmatch ic (Atom a) (c # cs) g = (if atom_ok ic a c then [(cs, g)] else [])"
| "rmatch ic (Seq r1 r2) s g =
     concat (map (\<lambda>(s', g'). rmatch ic r2 s' g') (rmatch ic r1 s g))"
| "rmatch ic (Lazy_Star a) [] g = [([], g)]"
| "rmatch ic (Lazy_Star a) (c # cs) g =
     (c # cs, g) # (if atom_ok ic a c then rmatch ic (Lazy_Star a) cs g else [])"
| "rmatch ic (Star a) [] g = [([], g)]"
| "rmatch ic (Star a) (c # cs) g =
     (if atom_ok ic a c then rmatch ic (Star a) cs g else []) @ [(c # cs, g)]"
| "rmatch ic (Plus a) [] g = []"
| "rmatch ic (Plus a) (c # cs) g = (if atom_ok ic a c then rmatch ic (Star a) cs g else [])"
| "rmatch ic (Opt r) s g = rmatch ic r s g @ [(s, g)]"
| "rmatch ic (Group r) s g =
     map (\<lambda>(s', g'). (s', take (length s - length s') s)) (rmatch ic r s g)"

definition first_group :: "thread list \<Rightarrow> string option" where
  "first_group ts = (case ts of [] \<Rightarrow> None | (s', g) # _ \<Rightarrow> Some g)"

text \<open>
  \<^verbatim>\<open>re.search(pattern, s)\<close> followed by \<^verbatim>\<open>match.group(1) if match else None\<close>:
  the start positions are tried from left to right, and the first position with a match
  wins.
\<close>

fun re_search :: "bool \<Rightarrow> regex \<Rightarrow> string \<Rightarrow> string option" where
  "re_search ic r [] = first_group (rmatch ic r [] [])"
| "re_search ic r (c # cs) =
     (case first_group (rmatch ic r (c # cs) []) of
        Some g \<Rightarrow> Some g
      | None \<Rightarrow> re_search ic r cs)"

text \<open>A run of literal characters followed by the rest of a pattern.\<close>

definition lits :: "string \<Rightarrow> regex \<Rightarrow> regex" where
  "lits cs r = foldr (\<lambda>c. Seq (Atom (Lit c))) cs r"

text \<open>\<^verbatim>\<open>\d+(?:\.\d+)?\<close> and \<^verbatim>\<open>-?\d+(?:\.\d+)?\<close>.\<close>

definition unsigned_number :: regex where
  "unsigned_number = Seq (Plus Digit) (Opt (Seq (Atom (Lit (CHR ''.''))) (Plus Digit)))"

definition signed_number :: regex where
  "signed_number = Seq (Opt (Atom (Lit (CHR ''-'')))) unsigned_number"

section \<open>The scores table\<close>

text \<open>
  One row of the scores table \<^verbatim>\<open>regime_scores.csv\<close>, with the columns the script names
  when it creates the empty frame. The four score columns hold numbers; they are modelled
  as reals, which order the finite floating-point values as Python's comparisons do.
\<close>

record regime_row =
  Regime :: string
  RAI :: real
  IDEO :: real
  HDR :: real
  PBR :: real
  Estimated_Deaths :: string
  Tagline :: string

text \<open>
  The four score columns: the options of the \<^verbatim>\<open>Sort by\<close> select box and the four
  numbers that the commit actions extract.
\<close>

datatype score = Col_RAI | Col_IDEO | Col_HDR | Col_PBR

fun column :: "score \<Rightarrow> regime_row \<Rightarrow> real" where
  "column Col_RAI r = RAI r"
| "column Col_IDEO r = IDEO r"
| "column Col_HDR r = HDR r"
| "column Col_PBR r = PBR r"

section \<open>Extraction\<close>

text \<open>
  The patterns of lines 84 to 94 (and again 180 to 190):
  \<^verbatim>\<open>RAI.*?(\d+(?:\.\d+)?)\<close>, \<^verbatim>\<open>IDEO.*?(-?\d+(?:\.\d+)?)\<close>,
  \<^verbatim>\<open>HDR.*?(\d+(?:\.\d+)?)\<close>, \<^verbatim>\<open>PBR.*?(\d+(?:\.\d+)?)\<close>,
  \<^verbatim>\<open>Estimated Deaths.*?:\s*(.*?)\\n\<close> and \<^verbatim>\<open>tagline.*?:\s*(.*?)\\n\<close>.
  The last two are raw strings, so they end in an escaped backslash followed by the
  letter n, and they are searched with \<^verbatim>\<open>re.IGNORECASE\<close>.
\<close>

fun label :: "score \<Rightarrow> string" where
  "label Col_RAI = ''RAI''"
| "label Col_IDEO = ''IDEO''"
| "label Col_HDR = ''HDR''"
| "label Col_PBR = ''PBR''"

fun number_pattern :: "score \<Rightarrow> regex" where
  "number_pattern Col_RAI = unsigned_number"
| "number_pattern Col_IDEO = signed_number"
| "number_pattern Col_HDR = unsigned_number"
| "number_pattern Col_PBR = unsigned_number"

definition score_pattern :: "score \<Rightarrow> regex" where
  "score_pattern f = lits (label f) (Seq (Lazy_Star Any) (Group (number_pattern f)))"

definition up_to_backslash_n :: regex where
  "up_to_backslash_n =
     Seq (Lazy_Star Any)
       (Seq (Atom (Lit (CHR '':'')))
         (Seq (Star Space) (Seq (Group (Lazy_Star Any)) (lits backslash_n Eps))))"

definition deaths_pattern :: regex where
  "deaths_pattern = lits ''Estimated Deaths'' up_to_backslash_n"

definition tagline_pattern :: regex where
  "tagline_pattern = lits ''tagline'' up_to_backslash_n"

text \<open>
  \<^verbatim>\<open>float(match.group(1))\<close> on a text of the shape the number patterns capture. The
  value is the exact decimal; the rounding to a double is not modelled.
\<close>

definition digit_value :: "char \<Rightarrow> nat" where
  "digit_value c = length (takeWhile (\<lambda>d. d \<noteq> c) ''0123456789'')"

definition digits_value :: "string \<Rightarrow> nat" where
  "digits_value ds = foldl (\<lambda>n c. 10 * n + digit_value c) 0 ds"

definition unsigned_value :: "string \<Rightarrow> real" where
  "unsigned_value s =
     (let whole = takeWhile isdigit s; rest = dropWhile isdigit s
      in real (digits_value whole) +
         (case rest of
            [] \<Rightarrow> 0
          | c # fs \<Rightarrow> real (digits_value fs) / 10 ^ length fs))"

fun float_of :: "string \<Rightarrow> real" where
  "float_of [] = 0"
| "float_of (c # cs) = (if c = CHR ''-'' then - unsigned_value cs else unsigned_value (c # cs))"

definition score_text :: "score \<Rightarrow> string \<Rightarrow> string option" where
  "score_text f reply = re_search False (score_pattern f) reply"

definition score_value :: "score \<Rightarrow> string \<Rightarrow> real option" where
  "score_value f reply = map_option float_of (score_text f reply)"

record extraction =
  rai :: "real option"
  ideo :: "real option"
  hdr :: "real option"
  pbr :: "real option"
  deaths :: string
  tagline :: string

definition extract_fields :: "string \<Rightarrow> extraction" where
  "extract_fields reply =
     \<lparr>rai = score_value Col_RAI reply,
      ideo = score_value Col_IDEO reply,
      hdr = score_value Col_HDR reply,
      pbr = score_value Col_PBR reply,
      deaths = (case re_search True deaths_pattern reply of
                  Some g \<Rightarrow> strip g
                | None \<Rightarrow> ''Unknown''),
      tagline = (case re_search True tagline_pattern reply of
                   Some g \<Rightarrow> g
                 | None \<Rightarrow> ''Generated by GPT'')\<rparr>"

text \<open>\<^verbatim>\<open>None not in (rai, ideo, hdr, pbr)\<close>.\<close>

definition complete :: "extraction \<Rightarrow> bool" where
  "complete e = (rai e \<noteq> None \<and> ideo e \<noteq> None \<and> hdr e \<noteq> None \<and> pbr e \<noteq> None)"

text \<open>
  The reply of the example in the specification, each line followed by a line break; the
  same reply with every mention of PBR removed; and the same reply with the two characters
  backslash and n after each line in place of the line break.
\<close>

definition sample_reply :: string where
  "sample_reply =
     ''RAI: 85\<newline>IDEO: 7\<newline>HDR: 9\<newline>PBR: 8\<newline>Estimated Deaths: 500000\<newline>Tagline: Iron Fist\<newline>''"

definition sample_without_PBR :: string where
  "sample_without_PBR =
     ''RAI: 85\<newline>IDEO: 7\<newline>HDR: 9\<newline>: 8\<newline>Estimated Deaths: 500000\<newline>Tagline: Iron Fist\<newline>''"

definition sample_marked :: string where
  "sample_marked =
     ''RAI: 85'' @ backslash_n @ ''IDEO: 7'' @ backslash_n @ ''HDR: 9'' @ backslash_n @
     ''PBR: 8'' @ backslash_n @ ''Estimated Deaths: 500000'' @ backslash_n @
     ''Tagline: Iron Fist'' @ backslash_n"

subsection \<open>What the score patterns look for, said directly\<close>

text \<open>
  A second description of the score extraction, without regular expressions, against which
  the patterns are compared. \<open>number_at s\<close> is the decimal number that starts at the
  head of \<open>s\<close>: the longest run of digits, and a fraction if a dot and a digit follow.
  \<open>signed_number_at\<close> also takes a minus sign directly before the digits.
\<close>

definition fraction_at :: "string \<Rightarrow> string" where
  "fraction_at s =
     (case s of
        [] \<Rightarrow> []
      | d # ds \<Rightarrow>
          if d = CHR ''.'' \<and> takeWhile isdigit ds \<noteq> [] then d # takeWhile isdigit ds else [])"

definition number_at :: "string \<Rightarrow> string option" where
  "number_at s =
     (if takeWhile isdigit s = [] then None
      else Some (takeWhile isdigit s @ fraction_at (dropWhile isdigit s)))"

definition signed_number_at :: "string \<Rightarrow> string option" where
  "signed_number_at s =
     (case s of
        [] \<Rightarrow> None
      | c # cs \<Rightarrow>
          if c = CHR ''-'' then map_option (\<lambda>n. c # n) (number_at cs) else number_at s)"

fun number_here :: "score \<Rightarrow> string \<Rightarrow> string option" where
  "number_here Col_RAI = number_at"
| "number_here Col_IDEO = signed_number_at"
| "number_here Col_HDR = number_at"
| "number_here Col_PBR = number_at"

text \<open>The first number on the rest of the current line.\<close>

fun first_on_line :: "(string \<Rightarrow> string option) \<Rightarrow> string \<Rightarrow> string option" where
  "first_on_line num [] = num []"
| "first_on_line num (c # cs) =
     (case num (c # cs) of
        Some n \<Rightarrow> Some n
      | None \<Rightarrow> if c = newline then None else first_on_line num cs)"

text \<open>
  The first place in the text where the label stands and a number follows on the same line.
\<close>

fun first_labelled :: "string \<Rightarrow> (string \<Rightarrow> string option) \<Rightarrow> string \<Rightarrow> string option" where
  "first_labelled lbl num [] = (if lbl = [] then first_on_line num [] else None)"
| "first_labelled lbl num (c # cs) =
     (if prefix lbl (c # cs) then
        (case first_on_line num (drop (length lbl) (c # cs)) of
           Some n \<Rightarrow> Some n
         | None \<Rightarrow> first_labelled lbl num cs)
      else first_labelled lbl num cs)"

section \<open>The filter and sort view\<close>

text \<open>
  The boolean mask of lines 48 to 51:
  \<^verbatim>\<open>(df["RAI"] >= rai_range[0]) & (df["RAI"] <= rai_range[1]) &
  (df["IDEO"] >= ideo_range[0]) & (df["IDEO"] <= ideo_range[1])\<close>.
\<close>

definition in_ranges :: "real \<times> real \<Rightarrow> real \<times> real \<Rightarrow> regime_row \<Rightarrow> bool" where
  "in_ranges rai_range ideo_range r =
     (RAI r \<ge> fst rai_range \<and> RAI r \<le> snd rai_range \<and>
      IDEO r \<ge> fst ideo_range \<and> IDEO r \<le> snd ideo_range)"

text \<open>
  \<^verbatim>\<open>sort_values(by=sort_by, ascending=False)\<close> is a call into the data-frame library with
  the default \<^verbatim>\<open>kind\<close>, which is \<^verbatim>\<open>quicksort\<close>. The routine is not part of the
  repository, so it is a parameter \<open>srt\<close> of the model. What the library documents for
  the call is \<open>sort_contract\<close>: the result holds the same rows and is in descending order of
  the key. The library documents only the kinds \<^verbatim>\<open>mergesort\<close> and \<^verbatim>\<open>stable\<close>
  as stable, so the contract says nothing about the order of rows with equal keys.
\<close>

type_synonym sorter = "(regime_row \<Rightarrow> real) \<Rightarrow> regime_row list \<Rightarrow> regime_row list"

definition descending :: "(regime_row \<Rightarrow> real) \<Rightarrow> regime_row list \<Rightarrow> bool" where
  "descending key rows = sorted_wrt (\<lambda>a b. key a \<ge> key b) rows"

definition sort_contract :: "sorter \<Rightarrow> bool" where
  "sort_contract srt =
     (\<forall>key rows. mset (srt key rows) = mset rows \<and> descending key (srt key rows))"

definition sort_values :: "sorter \<Rightarrow> score \<Rightarrow> regime_row list \<Rightarrow> regime_row list" where
  "sort_values srt sort_by df = srt (column sort_by) df"

definition filtered_df ::
  "sorter \<Rightarrow> real \<times> real \<Rightarrow> real \<times> real \<Rightarrow> score \<Rightarrow> regime_row list \<Rightarrow> regime_row list" where
  "filtered_df srt rai_range ideo_range sort_by df =
     sort_values srt sort_by (filter (in_ranges rai_range ideo_range) df)"

text \<open>
  Two sorting routines that meet the contract. \<open>stable_sort\<close> keeps rows with equal keys
  in input order; \<open>flip_sort\<close> sorts ascending and reverses, which turns the order of
  equal keys around.
\<close>

definition stable_sort :: sorter where
  "stable_sort key rows = sort_key (\<lambda>r. - key r) rows"



definition row :: "string \<Rightarrow> real \<Rightarrow> real \<Rightarrow> real \<Rightarrow> real \<Rightarrow> regime_row" where
  "row name a i h p =
     \<lparr>Regime = name, RAI = a, IDEO = i, HDR = h, PBR = p,
      Estimated_Deaths = ''Unknown'', Tagline = ''Generated by GPT''\<rparr>"

definition example_table :: "regime_row list" where
  "example_table =
     [row ''A'' 50 0 3 4, row ''B'' 95 8 9 9, row ''C'' 50 (-12) 1 1, row ''D'' 50 2 5 6,
      row ''E'' 10 (-3) 2 2]"

section \<open>The commit actions\<close>

text \<open>
  The files that a commit touches: the scores table (the frame \<^verbatim>\<open>df\<close>, written back
  whole by \<^verbatim>\<open>to_csv\<close>) and the change log, a text file opened for appending. A file
  that does not exist is \<open>None\<close>; appending creates it.
\<close>

record stores =
  df :: "regime_row list"
  change_log :: "string option"

definition append_file :: "string option \<Rightarrow> string \<Rightarrow> string option" where
  "append_file file text = Some ((case file of None \<Rightarrow> [] | Some old \<Rightarrow> old) @ text)"

text \<open>
  What the page shows: the calls of the user-interface library that matter here, with
  their texts (the pictographs of the source's texts are left out).
\<close>

datatype ui =
    Success string
  | Error string
  | Sidebar_Error string
  | Show_Rows "regime_row list"
  | Markdown string
  | Feedback_Form

text \<open>The dictionary of lines 98 to 106; the label is \<^verbatim>\<open>user_input.strip()[:40]\<close>.\<close>

definition new_row :: "string \<Rightarrow> real \<Rightarrow> real \<Rightarrow> real \<Rightarrow> real \<Rightarrow> string \<Rightarrow> string \<Rightarrow> regime_row" where
  "new_row user_input a i h p d t =
     \<lparr>Regime = take 40 (strip user_input), RAI = a, IDEO = i, HDR = h, PBR = p,
      Estimated_Deaths = d, Tagline = t\<rparr>"

text \<open>
  The text of line 111 (and 207). \<open>now\<close> is the text of \<^verbatim>\<open>datetime.datetime.now()\<close>
  and \<open>str_float\<close> is Python's formatting of a float, both parameters. The format string
  is not raw, so its last two characters \<^verbatim>\<open>\\n\<close> stand for a backslash and the
  letter n.
\<close>

definition log_line ::
  "string \<Rightarrow> (real \<Rightarrow> string) \<Rightarrow> string \<Rightarrow> real \<Rightarrow> real \<Rightarrow> real \<Rightarrow> real \<Rightarrow> string \<Rightarrow> string \<Rightarrow> string" where
  "log_line now str_float user_input a i h p d t =
     now @ '', '' @ [squote] @ take 40 (strip user_input) @ [squote] @
     '', RAI='' @ str_float a @ '', IDEO='' @ str_float i @
     '', HDR='' @ str_float h @ '', PBR='' @ str_float p @
     '', Deaths='' @ d @ '', Tagline='' @ [squote] @ t @ [squote] @ backslash_n"

definition write_commit ::
  "string \<Rightarrow> (real \<Rightarrow> string) \<Rightarrow> string \<Rightarrow> real \<Rightarrow> real \<Rightarrow> real \<Rightarrow> real \<Rightarrow> string \<Rightarrow> string \<Rightarrow> stores \<Rightarrow> stores" where
  "write_commit now str_float user_input a i h p d t st =
     st\<lparr>df := df st @ [new_row user_input a i h p d t],
        change_log := append_file (change_log st) (log_line now str_float user_input a i h p d t)\<rparr>"

text \<open>
  Lines 84 to 114, the body of the button \<^verbatim>\<open>Add to Regime Table\<close> of the chat. In
  the file the block stands detached from the chat code of lines 117 to 131 whose
  variables it reads; it is modelled by its statements, with \<open>reply\<close> the latest reply
  and \<open>user_input\<close> the latest input. The \<^verbatim>\<open>if\<close> of line 97 has no
  \<^verbatim>\<open>else\<close>.
\<close>

definition chat_commit ::
  "string \<Rightarrow> (real \<Rightarrow> string) \<Rightarrow> string \<Rightarrow> string \<Rightarrow> stores \<Rightarrow> stores \<times> ui list" where
  "chat_commit now str_float user_input reply st =
     (let e = extract_fields reply in
      case (rai e, ideo e, hdr e, pbr e) of
        (Some a, Some i, Some h, Some p) \<Rightarrow>
          (write_commit now str_float user_input a i h p (deaths e) (tagline e) st,
           [Success ''Regime added to table.'',
            Show_Rows [new_row user_input a i h p (deaths e) (tagline e)]])
      | _ \<Rightarrow> (st, []))"

text \<open>
  Lines 179 to 220, the body of the button \<^verbatim>\<open>Add Regime to Table\<close> of the sidebar.
  Here the \<^verbatim>\<open>if\<close> of line 193 has an \<^verbatim>\<open>else\<close> that shows an error.
\<close>

definition sidebar_commit ::
  "string \<Rightarrow> (real \<Rightarrow> string) \<Rightarrow> string \<Rightarrow> string \<Rightarrow> stores \<Rightarrow> stores \<times> ui list" where
  "sidebar_commit now str_float user_query result st =
     (let e = extract_fields result in
      case (rai e, ideo e, hdr e, pbr e) of
        (Some a, Some i, Some h, Some p) \<Rightarrow>
          (let st' = write_commit now str_float user_query a i h p (deaths e) (tagline e) st
           in (st',
               [Success ''Regime added and saved to dataset.'',
                Show_Rows [last (df st')],
                Markdown ''### Feedback on this Regime Analysis'',
                Feedback_Form]))
      | _ \<Rightarrow> (st, [Error ''Could not parse all scores from GPT output.'']))"

section \<open>The calls of the language model\<close>

text \<open>
  The remote call and the reading of \<^verbatim>\<open>response.choices[0].message.content\<close> either
  raise an exception or give the text of the reply. The service is a parameter \<open>llm\<close>
  from the messages sent to the text of the exception (\<open>Inl\<close>) or the reply (\<open>Inr\<close>).
\<close>

datatype role = System | User | Assistant

type_synonym message = "role \<times> string"

type_synonym service = "message list \<Rightarrow> string + string"

text \<open>
  Lines 118 to 131, the chat. The call of line 125 stands in no \<^verbatim>\<open>try\<close>: an
  exception leaves the script, after line 119 has already extended the transcript. The
  third component of the result is the exception that escapes, if any.
\<close>

definition chat_submit ::
  "service \<Rightarrow> string \<Rightarrow> message list \<Rightarrow> message list \<times> ui list \<times> string option" where
  "chat_submit llm user_input chat_history =
     (if user_input = [] then (chat_history, [], None)
      else
        (let history = chat_history @ [(User, user_input)] in
         case llm history of
           Inl exn \<Rightarrow> (history, [Markdown user_input], Some exn)
         | Inr reply \<Rightarrow>
             (history @ [(Assistant, reply)], [Markdown user_input, Markdown reply], None)))"

text \<open>
  Lines 139 to 223, the sidebar. The prompt is a fixed text around the query, given here
  by the texts before and after it. The call and the commit stand in a
  \<^verbatim>\<open>try\<close> whose handler shows the exception in the sidebar.
\<close>

definition prompt :: "string \<times> string \<Rightarrow> string \<Rightarrow> string" where
  "prompt rubric user_query = fst rubric @ [squote] @ user_query @ [squote] @ snd rubric"

definition sidebar_analyze ::
  "service \<Rightarrow> string \<times> string \<Rightarrow> string \<Rightarrow> (real \<Rightarrow> string) \<Rightarrow> bool \<Rightarrow> string \<Rightarrow> stores \<Rightarrow>
   stores \<times> ui list \<times> string option" where
  "sidebar_analyze llm rubric now str_float add_clicked user_query st =
     (if user_query = [] then (st, [], None)
      else
        (case llm [(User, prompt rubric user_query)] of
           Inl exn \<Rightarrow> (st, [Sidebar_Error (''API call failed: '' @ exn)], None)
         | Inr result \<Rightarrow>
             if add_clicked then
               (let (st', shown) = sidebar_commit now str_float user_query result st
                in (st', shown, None))
             else (st, [], None)))"

section \<open>The feedback log and the votes\<close>

text \<open>
  Line 217 writes one feedback entry. As in the change log, the format string ends in
  \<^verbatim>\<open>\\n\<close>, a backslash and the letter n.
\<close>

definition feedback_line :: "string \<Rightarrow> string \<Rightarrow> string \<Rightarrow> string \<Rightarrow> string" where
  "feedback_line now user_query feedback_rating feedback_notes =
     now @ '', '' @ [squote] @ take 40 (strip user_query) @ [squote] @
     '', '' @ [squote] @ feedback_rating @ [squote] @
     '', '' @ [squote] @ feedback_notes @ [squote] @ backslash_n"


text \<open>
  How the table parser cuts a text into lines and a line into fields. The parser's quote
  character is the double quote; the apostrophes that the script writes are ordinary
  characters of a field, and so are blanks after a comma. Fields that start with a double
  quote are not modelled: \<open>csv_fields\<close> is the parser's cut for lines without them.
\<close>

fun csv_fields :: "string \<Rightarrow> string list" where
  "csv_fields [] = [[]]"
| "csv_fields (c # cs) =
     (if c = CHR '','' then [] # csv_fields cs
      else (case csv_fields cs of
              [] \<Rightarrow> [[c]]
            | f # fs \<Rightarrow> (c # f) # fs))"


text \<open>
  The frames of lines 228 and 232, with the column names the script passes. A cell is the
  text of its field; what the parser makes of a column of numbers or of a marker for a
  missing value is not modelled.
\<close>

record feedback_entry =
  fb_Timestamp :: string
  fb_Regime :: string
  fb_Rating :: string
  fb_Comments :: string













text \<open>
  A text that the table parser reads as a single line without quoted fields.
\<close>

definition one_line :: "string \<Rightarrow> bool" where
  "one_line s = (newline \<notin> set s \<and> CHR 0x0D \<notin> set s \<and> CHR 0x22 \<notin> set s)"

text \<open>
  A feedback row as the viewer reads it from a line that the script wrote for the query
  Sparta (the field keeps the blank and the apostrophes), and a vote log with one upvote
  for exactly that text.
\<close>

definition example_entry :: feedback_entry where
  "example_entry =
     \<lparr>fb_Timestamp = ''2024-05-01 10:00:00.000000'',
      fb_Regime = '' '' @ [squote] @ ''Sparta'' @ [squote],
      fb_Rating = '' '' @ [squote] @ ''Good'' @ [squote],
      fb_Comments = '' '' @ [squote] @ [squote] @ backslash_n\<rparr>"


section \<open>Properties of the filter and sort view\<close>

lemma descending_map: "descending key rows = sorted (map (\<lambda>r. - key r) rows)"
  by (simp add: descending_def sorted_map)

lemma stable_sort_contract: "sort_contract stable_sort"
  by (simp add: sort_contract_def stable_sort_def descending_map)


lemma sort_contract_mset: "sort_contract srt \<Longrightarrow> mset (srt key rows) = mset rows"
  by (simp add: sort_contract_def)


lemma mset_filtered_df:
  assumes "sort_contract srt"
  shows "mset (filtered_df srt rai_range ideo_range sort_by table) =
         filter_mset (in_ranges rai_range ideo_range) (mset table)"
  using sort_contract_mset [OF assms] by (simp add: filtered_df_def sort_values_def)

lemma set_filtered_df:
  assumes "sort_contract srt"
  shows "set (filtered_df srt rai_range ideo_range sort_by table) =
         {r \<in> set table. in_ranges rai_range ideo_range r}"
proof -
  have "set (filtered_df srt rai_range ideo_range sort_by table) =
        set_mset (mset (filtered_df srt rai_range ideo_range sort_by table))"
    by simp
  also have "\<dots> = set_mset (filter_mset (in_ranges rai_range ideo_range) (mset table))"
    by (simp only: mset_filtered_df [OF assms])
  also have "\<dots> = {r \<in> set table. in_ranges rai_range ideo_range r}"
    by simp
  finally show ?thesis .
qed

text \<open>
  C1. Whatever the table, the two ranges and the sort field: every row of the filtered
  result has its RAI and its IDEO inside the closed ranges, no row of the table with a
  value outside a range appears in the result, and the result holds exactly the rows of
  the table that are inside both ranges, each as often as the table does. The sorting
  routine of the library may be any routine that returns the rows it was given in
  descending order.
\<close>

theorem filtered_rows_within_ranges:
  assumes "sort_contract srt"
  shows "(\<forall>r \<in> set (filtered_df srt (a, b) (c, d) sort_by table).
            a \<le> RAI r \<and> RAI r \<le> b \<and> c \<le> IDEO r \<and> IDEO r \<le> d) \<and>
         (\<forall>r \<in> set table. (RAI r < a \<or> b < RAI r \<or> IDEO r < c \<or> d < IDEO r) \<longrightarrow>
            r \<notin> set (filtered_df srt (a, b) (c, d) sort_by table)) \<and>
         mset (filtered_df srt (a, b) (c, d) sort_by table) =
           filter_mset (in_ranges (a, b) (c, d)) (mset table)"
proof (intro conjI)
  show "\<forall>r \<in> set (filtered_df srt (a, b) (c, d) sort_by table).
          a \<le> RAI r \<and> RAI r \<le> b \<and> c \<le> IDEO r \<and> IDEO r \<le> d"
    by (simp add: set_filtered_df [OF assms] in_ranges_def)
  show "\<forall>r \<in> set table. (RAI r < a \<or> b < RAI r \<or> IDEO r < c \<or> d < IDEO r) \<longrightarrow>
          r \<notin> set (filtered_df srt (a, b) (c, d) sort_by table)"
    by (auto simp add: set_filtered_df [OF assms] in_ranges_def)
  show "mset (filtered_df srt (a, b) (c, d) sort_by table) =
          filter_mset (in_ranges (a, b) (c, d)) (mset table)"
    by (rule mset_filtered_df [OF assms])
qed

theorem filtered_rows_within_ranges_witness:
  "sort_contract stable_sort \<and>
   mset (filtered_df stable_sort (20, 100) (-10, 10) Col_HDR example_table) =
     {#row ''A'' 50 0 3 4, row ''B'' 95 8 9 9, row ''D'' 50 2 5 6#}"
proof -
  have "mset (filtered_df stable_sort (20, 100) (-10, 10) Col_HDR example_table) =
        filter_mset (in_ranges (20, 100) (-10, 10)) (mset example_table)"
    using filtered_rows_within_ranges [OF stable_sort_contract, of 20 100 "-10" 10 Col_HDR example_table]
    by simp
  also have "\<dots> = {#row ''A'' 50 0 3 4, row ''B'' 95 8 9 9, row ''D'' 50 2 5 6#}"
    by (simp add: example_table_def in_ranges_def row_def)
  finally show ?thesis by (simp add: stable_sort_contract)
qed




section \<open>Properties of the regular expressions\<close>

lemmas text_simps = newline_def backslash_def squote_def backslash_n_def isdigit_def isspace_def
  lower_def strip_def

lemmas pattern_simps = score_pattern_def unsigned_number_def signed_number_def lits_def
  up_to_backslash_n_def deaths_pattern_def tagline_pattern_def first_group_def

lemmas value_simps = unsigned_value_def digits_value_def digit_value_def

lemma first_group_Nil: "first_group [] = None"
  by (simp add: first_group_def)

lemma first_group_Cons: "first_group ((s, g) # ts) = Some g"
  by (simp add: first_group_def)

lemma first_group_append:
  "first_group (xs @ ys) = (case first_group xs of Some g \<Rightarrow> Some g | None \<Rightarrow> first_group ys)"
  by (cases xs) (auto simp: first_group_def)

lemma rmatch_lits:
  "rmatch False (lits l r) s g =
     (if prefix l s then rmatch False r (drop (length l) s) g else [])"
proof (induction l arbitrary: s)
  case Nil
  show ?case by (simp add: lits_def)
next
  case (Cons c l)
  have unfold: "lits (c # l) r = Seq (Atom (Lit c)) (lits l r)"
    by (simp add: lits_def)
  show ?case
  proof (cases s)
    case Nil
    then show ?thesis by (simp add: unfold)
  next
    case (Cons x xs)
    then show ?thesis
      using Cons.IH [of xs] by (simp add: unfold)
  qed
qed

lemma rmatch_lazy_Cons:
  "rmatch ic (Seq (Lazy_Star a) r) (c # cs) g =
     rmatch ic r (c # cs) g @
     (if atom_ok ic a c then rmatch ic (Seq (Lazy_Star a) r) cs g else [])"
  by simp

lemma rmatch_star_first:
  "\<exists>ts. rmatch ic (Star a) s g = (dropWhile (atom_ok ic a) s, g) # ts"
proof (induction s)
  case Nil
  show ?case by simp
next
  case (Cons c cs)
  then obtain ts where "rmatch ic (Star a) cs g = (dropWhile (atom_ok ic a) cs, g) # ts"
    by blast
  then show ?case by simp
qed

lemma digits_atom: "atom_ok ic Digit = isdigit"
  by (rule ext) simp

lemma rmatch_digits_none:
  "takeWhile isdigit s = [] \<Longrightarrow> rmatch ic (Plus Digit) s g = []"
  by (cases s) (auto split: if_splits)

lemma rmatch_digits_first:
  assumes "takeWhile isdigit s \<noteq> []"
  shows "\<exists>ts. rmatch ic (Plus Digit) s g = (dropWhile isdigit s, g) # ts"
proof (cases s)
  case Nil
  with assms show ?thesis by simp
next
  case (Cons c cs)
  with assms have ok: "isdigit c" by (auto split: if_splits)
  obtain ts where "rmatch ic (Star Digit) cs g = (dropWhile isdigit cs, g) # ts"
    using rmatch_star_first [of ic Digit cs g] by (auto simp: digits_atom)
  with Cons ok show ?thesis by simp
qed

lemma rmatch_dot_digits:
  "rmatch ic (Seq (Atom (Lit (CHR ''.''))) (Plus Digit)) (CHR ''.'' # ds) g =
     rmatch ic (Plus Digit) ds g"
  by (simp add: lower_def)

lemma rmatch_no_dot:
  "d \<noteq> CHR ''.'' \<Longrightarrow> rmatch ic (Seq (Atom (Lit (CHR ''.''))) (Plus Digit)) (d # ds) g = []"
  by (simp add: lower_def)

lemma rmatch_opt:
  "rmatch ic (Opt r) s g = rmatch ic r s g @ [(s, g)]"
  by simp

lemma rmatch_fraction_first:
  "\<exists>ts. rmatch ic (Opt (Seq (Atom (Lit (CHR ''.''))) (Plus Digit))) s g =
        (drop (length (fraction_at s)) s, g) # ts"
proof (cases s)
  case Nil
  then show ?thesis by (simp add: fraction_at_def)
next
  case (Cons d ds)
  let ?F = "Seq (Atom (Lit (CHR ''.''))) (Plus Digit)"
  show ?thesis
  proof (cases "d = CHR ''.'' \<and> takeWhile isdigit ds \<noteq> []")
    case True
    then obtain vs where "rmatch ic (Plus Digit) ds g = (dropWhile isdigit ds, g) # vs"
      using rmatch_digits_first by blast
    with True have "rmatch ic ?F (d # ds) g = (dropWhile isdigit ds, g) # vs"
      by (simp only: rmatch_dot_digits)
    moreover have "drop (length (fraction_at s)) s = dropWhile isdigit ds"
      using True Cons by (simp add: fraction_at_def dropWhile_eq_drop)
    ultimately have "rmatch ic (Opt ?F) s g =
        (drop (length (fraction_at s)) s, g) # vs @ [(s, g)]"
      by (simp only: rmatch_opt Cons append_Cons)
    then show ?thesis by blast
  next
    case False
    have none: "rmatch ic ?F (d # ds) g = []"
    proof (cases "d = CHR ''.''")
      case True
      with False have "takeWhile isdigit ds = []" by simp
      then have "rmatch ic (Plus Digit) ds g = []" by (rule rmatch_digits_none)
      with True show ?thesis by (simp only: rmatch_dot_digits)
    next
      case False
      then show ?thesis by (rule rmatch_no_dot)
    qed
    have "fraction_at s = []"
      using False Cons by (auto simp add: fraction_at_def)
    then have "drop (length (fraction_at s)) s = s" by simp
    then have "rmatch ic (Opt ?F) s g = (drop (length (fraction_at s)) s, g) # []"
      by (simp only: rmatch_opt Cons none append_Nil)
    then show ?thesis by blast
  qed
qed

lemma fraction_at_prefix: "prefix (fraction_at s) s"
  by (cases s) (simp_all add: fraction_at_def takeWhile_is_prefix)

lemma number_at_prefix:
  assumes "number_at s = Some n"
  shows "s = n @ drop (length n) s"
proof -
  have n: "n = takeWhile isdigit s @ fraction_at (dropWhile isdigit s)"
    using assms by (simp add: number_at_def split: if_splits)
  obtain r where r: "dropWhile isdigit s = fraction_at (dropWhile isdigit s) @ r"
    using fraction_at_prefix [of "dropWhile isdigit s"] by (auto simp: prefix_def)
  have "s = takeWhile isdigit s @ dropWhile isdigit s" by simp
  then have "s = n @ r" using n r by (metis append_assoc)
  then show ?thesis by (metis append_eq_conv_conj)
qed

lemma rmatch_unsigned_none:
  assumes "number_at s = None"
  shows "rmatch ic unsigned_number s g = []"
proof -
  have "rmatch ic (Plus Digit) s g = []"
    using assms by (simp add: number_at_def rmatch_digits_none split: if_splits)
  then show ?thesis
    by (simp only: unsigned_number_def rmatch.simps(4)) simp
qed

lemma rmatch_unsigned_first:
  assumes "number_at s = Some n"
  shows "\<exists>ts. rmatch ic unsigned_number s g = (drop (length n) s, g) # ts"
proof -
  let ?F = "Opt (Seq (Atom (Lit (CHR ''.''))) (Plus Digit))"
  have digits: "takeWhile isdigit s \<noteq> []"
    and n: "n = takeWhile isdigit s @ fraction_at (dropWhile isdigit s)"
    using assms by (simp_all add: number_at_def split: if_splits)
  obtain ts where plus: "rmatch ic (Plus Digit) s g = (dropWhile isdigit s, g) # ts"
    using rmatch_digits_first [OF digits] by blast
  obtain us where frac: "rmatch ic ?F (dropWhile isdigit s) g =
      (drop (length (fraction_at (dropWhile isdigit s))) (dropWhile isdigit s), g) # us"
    using rmatch_fraction_first by blast
  have "drop (length (fraction_at (dropWhile isdigit s))) (dropWhile isdigit s) =
        drop (length n) s"
    by (simp add: n dropWhile_eq_drop add.commute)
  with frac have frac': "rmatch ic ?F (dropWhile isdigit s) g = (drop (length n) s, g) # us"
    by simp
  have "rmatch ic unsigned_number s g =
        concat (map (\<lambda>(s', g'). rmatch ic ?F s' g') (rmatch ic (Plus Digit) s g))"
    by (simp only: unsigned_number_def rmatch.simps(4))
  also have "\<dots> = rmatch ic ?F (dropWhile isdigit s) g @
                   concat (map (\<lambda>(s', g'). rmatch ic ?F s' g') ts)"
    by (simp only: plus list.map concat.simps prod.case)
  finally show ?thesis
    by (simp only: frac') simp
qed

lemma rmatch_group:
  "rmatch ic (Group r) s g =
     map (\<lambda>(s', g'). (s', take (length s - length s') s)) (rmatch ic r s g)"
  by simp

lemma first_group_unsigned:
  "first_group (rmatch ic (Group unsigned_number) s g) = number_at s"
proof (cases "number_at s")
  case None
  then show ?thesis
    by (simp only: rmatch_group rmatch_unsigned_none) (simp add: first_group_def)
next
  case (Some n)
  obtain ts where ts: "rmatch ic unsigned_number s g = (drop (length n) s, g) # ts"
    using rmatch_unsigned_first [OF Some] by blast
  have s: "s = n @ drop (length n) s" by (rule number_at_prefix [OF Some])
  have "length s - length (drop (length n) s) = length n"
    using arg_cong [OF s, of length] by simp
  moreover have "take (length n) s = n"
    using s by (metis append_eq_conv_conj)
  ultimately show ?thesis
    using Some by (simp only: rmatch_group ts) (simp add: first_group_def)
qed

lemma not_digit_minus: "\<not> isdigit (CHR ''-'')"
  by (simp add: isdigit_def)

lemma rmatch_signed:
  "rmatch ic signed_number s g =
     (case s of
        [] \<Rightarrow> []
      | c # cs \<Rightarrow> if c = CHR ''-'' then rmatch ic unsigned_number cs g
                 else rmatch ic unsigned_number s g)"
proof (cases s)
  case Nil
  have "number_at [] = None" by (simp add: number_at_def)
  then have "rmatch ic unsigned_number [] g = []" by (rule rmatch_unsigned_none)
  with Nil show ?thesis
    by (simp only: signed_number_def rmatch.simps list.case) simp
next
  case (Cons c cs)
  show ?thesis
  proof (cases "c = CHR ''-''")
    case True
    have "number_at (CHR ''-'' # cs) = None"
      by (simp add: number_at_def not_digit_minus)
    then have "rmatch ic unsigned_number (CHR ''-'' # cs) g = []"
      by (rule rmatch_unsigned_none)
    moreover have "rmatch ic (Opt (Atom (Lit (CHR ''-'')))) (CHR ''-'' # cs) g =
        [(cs, g), (CHR ''-'' # cs, g)]"
      by (simp add: lower_def)
    ultimately have "rmatch ic signed_number (CHR ''-'' # cs) g = rmatch ic unsigned_number cs g"
      by (simp only: signed_number_def rmatch.simps(4)) simp
    with True Cons show ?thesis by simp
  next
    case False
    then have "rmatch ic (Opt (Atom (Lit (CHR ''-'')))) (c # cs) g = [(c # cs, g)]"
      by (simp add: lower_def)
    then have "rmatch ic signed_number (c # cs) g = rmatch ic unsigned_number (c # cs) g"
      by (simp only: signed_number_def rmatch.simps(4)) simp
    with False Cons show ?thesis by simp
  qed
qed

lemma first_group_signed:
  "first_group (rmatch ic (Group signed_number) s g) = signed_number_at s"
proof (cases s)
  case Nil
  then show ?thesis
    by (simp only: rmatch_group rmatch_signed) (simp add: first_group_def signed_number_at_def)
next
  case (Cons c cs)
  show ?thesis
  proof (cases "c = CHR ''-''")
    case False
    have "rmatch ic (Group signed_number) s g = rmatch ic (Group unsigned_number) s g"
      using False Cons by (simp only: rmatch_group rmatch_signed) simp
    then show ?thesis
      using False Cons by (simp add: first_group_unsigned signed_number_at_def del: rmatch.simps)
  next
    case True
    have threads: "rmatch ic signed_number s g = rmatch ic unsigned_number cs g"
      using True Cons by (simp only: rmatch_signed) simp
    show ?thesis
    proof (cases "number_at cs")
      case None
      then have "rmatch ic unsigned_number cs g = []" by (rule rmatch_unsigned_none)
      with threads None True Cons show ?thesis
        by (simp only: rmatch_group) (simp add: first_group_def signed_number_at_def)
    next
      case (Some n)
      obtain ts where ts: "rmatch ic unsigned_number cs g = (drop (length n) cs, g) # ts"
        using rmatch_unsigned_first [OF Some] by blast
      have cs: "cs = n @ drop (length n) cs" by (rule number_at_prefix [OF Some])
      have len: "length s - length (drop (length n) cs) = Suc (length n)"
        using arg_cong [OF cs, of length] Cons by simp
      have "take (length n) cs = n"
        using cs by (metis append_eq_conv_conj)
      then have "take (Suc (length n)) s = c # n"
        using Cons by simp
      with len have "first_group (rmatch ic (Group signed_number) s g) = Some (c # n)"
        by (simp only: rmatch_group threads ts) (simp add: first_group_def)
      with Some True Cons show ?thesis
        by (simp add: signed_number_at_def)
    qed
  qed
qed

lemma first_group_number:
  "first_group (rmatch ic (Group (number_pattern f)) s g) = number_here f s"
  by (cases f) (simp_all only: number_pattern.simps number_here.simps
      first_group_unsigned first_group_signed)

lemma rmatch_lazy_Nil:
  "rmatch ic (Seq (Lazy_Star a) r) [] g = rmatch ic r [] g"
  by simp

lemma first_group_lazy_scan:
  assumes "\<And>s g. first_group (rmatch ic r s g) = num s"
  shows "first_group (rmatch ic (Seq (Lazy_Star Any) r) s g) = first_on_line num s"
proof (induction s)
  case Nil
  show ?case by (simp only: rmatch_lazy_Nil assms first_on_line.simps)
next
  case (Cons c cs)
  have "first_group (rmatch ic (Seq (Lazy_Star Any) r) (c # cs) g) =
        (case num (c # cs) of
           Some n \<Rightarrow> Some n
         | None \<Rightarrow> first_group
             (if atom_ok ic Any c then rmatch ic (Seq (Lazy_Star Any) r) cs g else []))"
    by (simp only: rmatch_lazy_Cons first_group_append assms)
  also have "\<dots> = (case num (c # cs) of
           Some n \<Rightarrow> Some n
         | None \<Rightarrow> if c = newline then None else first_on_line num cs)"
    by (cases "c = newline")
      (simp_all add: Cons.IH first_group_Nil del: rmatch.simps split: option.splits)
  finally show ?case by simp
qed

lemma re_search_labelled:
  assumes "\<And>s g. first_group (rmatch False r s g) = num s"
  shows "re_search False (lits lbl (Seq (Lazy_Star Any) r)) reply = first_labelled lbl num reply"
proof (induction reply)
  case Nil
  have "re_search False (lits lbl (Seq (Lazy_Star Any) r)) [] =
        first_group (if prefix lbl [] then rmatch False (Seq (Lazy_Star Any) r) (drop (length lbl) []) []
                     else [])"
    by (simp only: re_search.simps rmatch_lits)
  also have "\<dots> = first_labelled lbl num []"
    by (cases "lbl = []") (simp_all add: first_group_lazy_scan [OF assms] first_group_Nil del: rmatch.simps)
  finally show ?case .
next
  case (Cons c cs)
  let ?here = "first_group (rmatch False (lits lbl (Seq (Lazy_Star Any) r)) (c # cs) [])"
  have here: "?here =
      (if prefix lbl (c # cs) then first_on_line num (drop (length lbl) (c # cs)) else None)"
    by (simp only: rmatch_lits first_group_lazy_scan [OF assms] first_group_Nil if_distrib [of first_group])
  have "re_search False (lits lbl (Seq (Lazy_Star Any) r)) (c # cs) =
        (case ?here of Some g \<Rightarrow> Some g
         | None \<Rightarrow> re_search False (lits lbl (Seq (Lazy_Star Any) r)) cs)"
    by (simp only: re_search.simps)
  also have "\<dots> = first_labelled lbl num (c # cs)"
    by (simp only: here Cons.IH first_labelled.simps) (simp split: option.splits)
  finally show ?case .
qed

lemma score_text_direct:
  "score_text f reply = first_labelled (label f) (number_here f) reply"
  unfolding score_text_def score_pattern_def
  by (rule re_search_labelled) (rule first_group_number)

section \<open>Properties of the extraction\<close>

lemma number_at_not_digit: "\<not> isdigit c \<Longrightarrow> number_at (c # s) = None"
  by (simp add: number_at_def)

lemma number_at_Nil: "number_at [] = None"
  by (simp add: number_at_def)

lemma number_at_gap_minus:
  assumes "\<forall>c\<in>set gap. \<not> isdigit c \<and> c \<noteq> newline"
  shows "number_at (gap @ CHR ''-'' # s) = None"
  using assms by (cases gap) (simp_all add: number_at_not_digit not_digit_minus)

lemma number_here_gap:
  assumes "\<forall>c\<in>set gap. \<not> isdigit c \<and> c \<noteq> newline" and "\<not> isdigit c"
  shows "number_here f (c # gap @ CHR ''-'' # s) = None"
proof -
  have "number_at (c # gap @ CHR ''-'' # s) = None"
    using assms(2) by (rule number_at_not_digit)
  moreover have "signed_number_at (c # gap @ CHR ''-'' # s) = None"
    using assms number_at_gap_minus [OF assms(1), of s]
    by (simp add: signed_number_at_def number_at_not_digit)
  ultimately show ?thesis by (cases f) simp_all
qed

lemma first_on_line_here: "num s = Some n \<Longrightarrow> first_on_line num s = Some n"
  by (cases s) simp_all

lemma number_here_minus:
  assumes "number_at s = Some n"
  shows "first_on_line (number_here f) (CHR ''-'' # s) =
         Some (if f = Col_IDEO then CHR ''-'' # n else n)"
proof (cases "f = Col_IDEO")
  case True
  then have "number_here f (CHR ''-'' # s) = Some (CHR ''-'' # n)"
    using assms by (simp add: signed_number_at_def)
  then show ?thesis
    using True first_on_line_here by simp
next
  case False
  then have "number_here f = number_at" by (cases f) simp_all
  moreover have "number_at (CHR ''-'' # s) = None"
    by (simp add: number_at_not_digit not_digit_minus)
  moreover have "first_on_line number_at s = Some n"
    using assms by (rule first_on_line_here)
  ultimately show ?thesis
    using False by (simp add: newline_def)
qed

lemma first_on_line_gap:
  assumes "\<forall>c\<in>set gap. \<not> isdigit c \<and> c \<noteq> newline" and "number_at s = Some n"
  shows "first_on_line (number_here f) (gap @ CHR ''-'' # s) =
         Some (if f = Col_IDEO then CHR ''-'' # n else n)"
  using assms(1)
proof (induction gap)
  case Nil
  show ?case using number_here_minus [OF assms(2)] by simp
next
  case (Cons c gap)
  then have "number_here f (c # gap @ CHR ''-'' # s) = None"
    using number_here_gap [of gap c f s] by simp
  with Cons show ?case by simp
qed

lemma first_labelled_here:
  assumes "lbl \<noteq> []" and "first_on_line num s = Some n"
  shows "first_labelled lbl num (lbl @ s) = Some n"
proof -
  obtain c cs where "lbl @ s = c # cs" using assms(1) by (cases lbl) auto
  moreover have "prefix lbl (lbl @ s)" by simp
  moreover have "drop (length lbl) (lbl @ s) = s" by simp
  ultimately show ?thesis
    using assms(2) by (metis first_labelled.simps(2) option.simps(5))
qed

lemma label_not_Nil: "label f \<noteq> []"
  by (cases f) simp_all

lemma number_at_starts_with_digit:
  assumes "number_at s = Some n"
  shows "\<exists>c cs. n = c # cs \<and> c \<noteq> CHR ''-''"
proof -
  have "takeWhile isdigit s \<noteq> []" and "n = takeWhile isdigit s @ fraction_at (dropWhile isdigit s)"
    using assms by (simp_all add: number_at_def split: if_splits)
  then obtain c cs where tw: "takeWhile isdigit s = c # cs" by (cases "takeWhile isdigit s") auto
  then have "c \<in> set (takeWhile isdigit s)" by simp
  then have "isdigit c" by (rule set_takeWhileD [THEN conjunct2])
  then have "c \<noteq> CHR ''-''" using not_digit_minus by auto
  with tw \<open>n = _\<close> show ?thesis by simp
qed

lemma float_of_number:
  assumes "number_at s = Some n"
  shows "float_of n = unsigned_value n" and "float_of (CHR ''-'' # n) = - unsigned_value n"
  using number_at_starts_with_digit [OF assms] by auto


text \<open>
  C5, as amended. For every text and each of the four scores, the extraction returns the
  number at the first place in the text where the score's label stands and a decimal
  number follows later on the same line; it is undefined if there is no such place. For
  IDEO a minus sign directly before the digits belongs to the number. The patterns for
  RAI, HDR and PBR have no sign: a negative value after the label is extracted without its
  minus sign.
\<close>

theorem score_extraction:
  "score_text f reply = first_labelled (label f) (number_here f) reply \<and>
   score_value f reply = map_option float_of (first_labelled (label f) (number_here f) reply) \<and>
   ((\<forall>c\<in>set gap. \<not> isdigit c \<and> c \<noteq> newline) \<and> number_at s = Some n \<longrightarrow>
      score_text f (label f @ gap @ CHR ''-'' # s) =
        Some (if f = Col_IDEO then CHR ''-'' # n else n) \<and>
      score_value f (label f @ gap @ CHR ''-'' # s) =
        Some (if f = Col_IDEO then - unsigned_value n else unsigned_value n))"
proof (intro conjI impI)
  show "score_text f reply = first_labelled (label f) (number_here f) reply"
    by (rule score_text_direct)
  show "score_value f reply = map_option float_of (first_labelled (label f) (number_here f) reply)"
    by (simp add: score_value_def score_text_direct)
next
  assume h: "(\<forall>c\<in>set gap. \<not> isdigit c \<and> c \<noteq> newline) \<and> number_at s = Some n"
  then have "first_on_line (number_here f) (gap @ CHR ''-'' # s) =
             Some (if f = Col_IDEO then CHR ''-'' # n else n)"
    using first_on_line_gap by blast
  then have "first_labelled (label f) (number_here f) (label f @ gap @ CHR ''-'' # s) =
             Some (if f = Col_IDEO then CHR ''-'' # n else n)"
    using first_labelled_here [OF label_not_Nil] by blast
  then show t: "score_text f (label f @ gap @ CHR ''-'' # s) =
             Some (if f = Col_IDEO then CHR ''-'' # n else n)"
    by (simp only: score_text_direct)
  show "score_value f (label f @ gap @ CHR ''-'' # s) =
        Some (if f = Col_IDEO then - unsigned_value n else unsigned_value n)"
    using h float_of_number [of s n] by (simp add: score_value_def t)
qed


theorem score_extraction_witness:
  "number_at ''7.5 (far right)'' = Some ''7.5'' \<and>
   score_text Col_IDEO ''IDEO: -7.5 (far right)'' = Some ''-7.5'' \<and>
   score_value Col_IDEO ''IDEO: -7.5 (far right)'' = Some (- 7.5) \<and>
   score_text Col_HDR ''HDR: -7.5 (far right)'' = Some ''7.5'' \<and>
   score_value Col_HDR ''HDR: -7.5 (far right)'' = Some 7.5"
proof -
  have gap: "\<forall>c\<in>set '': ''. \<not> isdigit c \<and> c \<noteq> newline"
    by (simp add: isdigit_def newline_def)
  have num: "number_at ''7.5 (far right)'' = Some ''7.5''"
    by (simp add: number_at_def fraction_at_def isdigit_def)
  have val: "unsigned_value ''7.5'' = 7.5"
    by (simp add: unsigned_value_def digits_value_def digit_value_def isdigit_def)
  show ?thesis
    using score_extraction [of Col_IDEO "[]" "'': ''" "''7.5 (far right)''" "''7.5''"]
      score_extraction [of Col_HDR "[]" "'': ''" "''7.5 (far right)''" "''7.5''"]
      gap num val
    by simp
qed


text \<open>
  The claim C5 as stated promises the sign for all four scores, and a number anywhere
  after the label. The text \<^verbatim>\<open>RAI: -5\<close> gives RAI the value 5, and likewise for HDR
  and PBR; a number on the line after the label is not found.
\<close>

theorem sign_kept_for_every_score_counterexample:
  "score_text Col_RAI ''RAI: -5'' = Some ''5'' \<and>
   score_value Col_RAI ''RAI: -5'' = Some 5 \<and>
   score_value Col_RAI ''RAI: -5'' \<noteq> Some (- 5) \<and>
   score_value Col_HDR ''HDR: -5'' \<noteq> Some (- 5) \<and>
   score_value Col_PBR ''PBR: -5'' \<noteq> Some (- 5) \<and>
   score_value Col_RAI ''RAI\<newline>85'' = None"
  by (simp add: score_value_def score_text_def text_simps pattern_simps value_simps)

subsection \<open>The example reply\<close>

lemma extract_sample_reply:
  "extract_fields sample_reply =
     \<lparr>rai = Some 85, ideo = Some 7, hdr = Some 9, pbr = Some 8,
      deaths = ''Unknown'', tagline = ''Generated by GPT''\<rparr>"
proof -
  have "score_value Col_RAI sample_reply = Some 85"
    by (simp add: score_value_def score_text_def sample_reply_def text_simps pattern_simps
        value_simps)
  moreover have "score_value Col_IDEO sample_reply = Some 7"
    by (simp add: score_value_def score_text_def sample_reply_def text_simps pattern_simps
        value_simps)
  moreover have "score_value Col_HDR sample_reply = Some 9"
    by (simp add: score_value_def score_text_def sample_reply_def text_simps pattern_simps
        value_simps)
  moreover have "score_value Col_PBR sample_reply = Some 8"
    by (simp add: score_value_def score_text_def sample_reply_def text_simps pattern_simps
        value_simps)
  moreover have "re_search True deaths_pattern sample_reply = None"
    by (simp add: sample_reply_def text_simps pattern_simps)
  moreover have "re_search True tagline_pattern sample_reply = None"
    by (simp add: sample_reply_def text_simps pattern_simps)
  ultimately show ?thesis by (simp add: extract_fields_def)
qed

lemma extract_sample_without_PBR:
  "extract_fields sample_without_PBR =
     \<lparr>rai = Some 85, ideo = Some 7, hdr = Some 9, pbr = None,
      deaths = ''Unknown'', tagline = ''Generated by GPT''\<rparr>"
proof -
  have "score_value Col_RAI sample_without_PBR = Some 85"
    by (simp add: score_value_def score_text_def sample_without_PBR_def text_simps pattern_simps
        value_simps)
  moreover have "score_value Col_IDEO sample_without_PBR = Some 7"
    by (simp add: score_value_def score_text_def sample_without_PBR_def text_simps pattern_simps
        value_simps)
  moreover have "score_value Col_HDR sample_without_PBR = Some 9"
    by (simp add: score_value_def score_text_def sample_without_PBR_def text_simps pattern_simps
        value_simps)
  moreover have "score_value Col_PBR sample_without_PBR = None"
    by (simp add: score_value_def score_text_def sample_without_PBR_def text_simps pattern_simps)
  moreover have "re_search True deaths_pattern sample_without_PBR = None"
    by (simp add: sample_without_PBR_def text_simps pattern_simps)
  moreover have "re_search True tagline_pattern sample_without_PBR = None"
    by (simp add: sample_without_PBR_def text_simps pattern_simps)
  ultimately show ?thesis by (simp add: extract_fields_def)
qed

lemma extract_sample_marked:
  "extract_fields sample_marked =
     \<lparr>rai = Some 85, ideo = Some 7, hdr = Some 9, pbr = Some 8,
      deaths = ''500000'', tagline = ''Iron Fist''\<rparr>"
proof -
  have "score_value Col_RAI sample_marked = Some 85"
    by (simp add: score_value_def score_text_def sample_marked_def text_simps pattern_simps
        value_simps)
  moreover have "score_value Col_IDEO sample_marked = Some 7"
    by (simp add: score_value_def score_text_def sample_marked_def text_simps pattern_simps
        value_simps)
  moreover have "score_value Col_HDR sample_marked = Some 9"
    by (simp add: score_value_def score_text_def sample_marked_def text_simps pattern_simps
        value_simps)
  moreover have "score_value Col_PBR sample_marked = Some 8"
    by (simp add: score_value_def score_text_def sample_marked_def text_simps pattern_simps
        value_simps)
  moreover have "re_search True deaths_pattern sample_marked = Some ''500000''"
    by (simp add: sample_marked_def text_simps pattern_simps)
  moreover have "re_search True tagline_pattern sample_marked = Some ''Iron Fist''"
    by (simp add: sample_marked_def text_simps pattern_simps)
  ultimately show ?thesis by (simp add: extract_fields_def text_simps)
qed

section \<open>Properties of the commit actions\<close>

lemma incomplete_chat_commit:
  "\<not> complete (extract_fields reply) \<Longrightarrow>
   chat_commit now str_float user_input reply st = (st, [])"
  by (auto simp: chat_commit_def complete_def Let_def split: option.splits)

lemma incomplete_sidebar_commit:
  "\<not> complete (extract_fields result) \<Longrightarrow>
   sidebar_commit now str_float user_query result st =
     (st, [Error ''Could not parse all scores from GPT output.''])"
  by (auto simp: sidebar_commit_def complete_def Let_def split: option.splits)

lemma complete_chat_commit:
  assumes "rai (extract_fields reply) = Some a" and "ideo (extract_fields reply) = Some i"
    and "hdr (extract_fields reply) = Some h" and "pbr (extract_fields reply) = Some p"
  shows "chat_commit now str_float user_input reply st =
     (write_commit now str_float user_input a i h p
        (deaths (extract_fields reply)) (tagline (extract_fields reply)) st,
      [Success ''Regime added to table.'',
       Show_Rows [new_row user_input a i h p
         (deaths (extract_fields reply)) (tagline (extract_fields reply))]])"
  using assms by (simp add: chat_commit_def Let_def)

lemma complete_sidebar_commit:
  assumes "rai (extract_fields result) = Some a" and "ideo (extract_fields result) = Some i"
    and "hdr (extract_fields result) = Some h" and "pbr (extract_fields result) = Some p"
  shows "fst (sidebar_commit now str_float user_query result st) =
     write_commit now str_float user_query a i h p
        (deaths (extract_fields result)) (tagline (extract_fields result)) st"
  using assms by (simp add: sidebar_commit_def Let_def)

text \<open>
  C3. When a score is missing from the reply, neither commit action writes: the table and
  the change log are returned as they were. The commit of the sidebar shows an error. The
  commit of the chat shows nothing at all, since its \<^verbatim>\<open>if\<close> has no \<^verbatim>\<open>else\<close>: the
  failure is not reported there.
\<close>

theorem incomplete_commit_writes_nothing:
  assumes "\<not> complete (extract_fields reply)"
  shows "chat_commit now str_float user_input reply st = (st, []) \<and>
         sidebar_commit now str_float user_input reply st =
           (st, [Error ''Could not parse all scores from GPT output.''])"
  using assms by (simp add: incomplete_chat_commit incomplete_sidebar_commit)

theorem incomplete_commit_writes_nothing_witness:
  "\<not> complete (extract_fields sample_without_PBR) \<and>
   (\<forall>now str_float user_input st.
      chat_commit now str_float user_input sample_without_PBR st = (st, []) \<and>
      sidebar_commit now str_float user_input sample_without_PBR st =
        (st, [Error ''Could not parse all scores from GPT output.'']))"
proof -
  have "\<not> complete (extract_fields sample_without_PBR)"
    by (simp add: extract_sample_without_PBR complete_def)
  then show ?thesis
    using incomplete_commit_writes_nothing [of sample_without_PBR]
    by simp
qed

text \<open>
  C4. When all four scores are found, either commit action appends exactly one row to the
  table and exactly one text to the change log, in the documented format, whatever was
  there before. The text does not end in a line break: its last two characters are a
  backslash and the letter n, so the entries of the change log all stand on one line.
\<close>

theorem complete_commit_appends:
  assumes "rai (extract_fields reply) = Some a" and "ideo (extract_fields reply) = Some i"
    and "hdr (extract_fields reply) = Some h" and "pbr (extract_fields reply) = Some p"
  shows "fst (chat_commit now str_float user_input reply st) =
           st\<lparr>df := df st @
                [\<lparr>Regime = take 40 (strip user_input), RAI = a, IDEO = i, HDR = h, PBR = p,
                  Estimated_Deaths = deaths (extract_fields reply),
                  Tagline = tagline (extract_fields reply)\<rparr>],
              change_log := Some
                ((case change_log st of None \<Rightarrow> [] | Some old \<Rightarrow> old) @
                 now @ '', '' @ [squote] @ take 40 (strip user_input) @ [squote] @
                 '', RAI='' @ str_float a @ '', IDEO='' @ str_float i @
                 '', HDR='' @ str_float h @ '', PBR='' @ str_float p @
                 '', Deaths='' @ deaths (extract_fields reply) @
                 '', Tagline='' @ [squote] @ tagline (extract_fields reply) @ [squote] @
                 [backslash, CHR ''n''])\<rparr> \<and>
         fst (sidebar_commit now str_float user_input reply st) =
           fst (chat_commit now str_float user_input reply st)"
proof -
  have "fst (chat_commit now str_float user_input reply st) =
        write_commit now str_float user_input a i h p
          (deaths (extract_fields reply)) (tagline (extract_fields reply)) st"
    by (simp only: complete_chat_commit [OF assms] fst_conv)
  moreover have "fst (sidebar_commit now str_float user_input reply st) =
        write_commit now str_float user_input a i h p
          (deaths (extract_fields reply)) (tagline (extract_fields reply)) st"
    by (rule complete_sidebar_commit [OF assms])
  ultimately show ?thesis
    by (simp add: write_commit_def new_row_def log_line_def append_file_def backslash_n_def)
qed

theorem complete_commit_appends_witness:
  "rai (extract_fields sample_reply) = Some 85 \<and>
   (\<forall>now str_float table old.
      fst (chat_commit now str_float ''Sparta'' sample_reply \<lparr>df = table, change_log = Some old\<rparr>) =
        \<lparr>df = table @ [\<lparr>Regime = ''Sparta'', RAI = 85, IDEO = 7, HDR = 9, PBR = 8,
                  Estimated_Deaths = ''Unknown'', Tagline = ''Generated by GPT''\<rparr>],
         change_log = Some (old @ now @ '', '' @ [squote] @ ''Sparta'' @ [squote] @
              '', RAI='' @ str_float 85 @ '', IDEO='' @ str_float 7 @
              '', HDR='' @ str_float 9 @ '', PBR='' @ str_float 8 @
              '', Deaths=Unknown, Tagline='' @ [squote] @ ''Generated by GPT'' @ [squote] @
              [backslash, CHR ''n''])\<rparr>)"
proof -
  have e: "rai (extract_fields sample_reply) = Some 85" "ideo (extract_fields sample_reply) = Some 7"
    "hdr (extract_fields sample_reply) = Some 9" "pbr (extract_fields sample_reply) = Some 8"
    by (simp_all add: extract_sample_reply)
  have d: "deaths (extract_fields sample_reply) = ''Unknown''"
    "tagline (extract_fields sample_reply) = ''Generated by GPT''"
    by (simp_all add: extract_sample_reply)
  have s: "take 40 (strip ''Sparta'') = ''Sparta''"
    by (simp add: text_simps)
  have "fst (chat_commit now str_float ''Sparta'' sample_reply \<lparr>df = table, change_log = Some old\<rparr>) =
     \<lparr>df = table @ [\<lparr>Regime = ''Sparta'', RAI = 85, IDEO = 7, HDR = 9, PBR = 8,
               Estimated_Deaths = ''Unknown'', Tagline = ''Generated by GPT''\<rparr>],
      change_log = Some (old @ now @ '', '' @ [squote] @ ''Sparta'' @ [squote] @
           '', RAI='' @ str_float 85 @ '', IDEO='' @ str_float 7 @
           '', HDR='' @ str_float 9 @ '', PBR='' @ str_float 8 @
           '', Deaths=Unknown, Tagline='' @ [squote] @ ''Generated by GPT'' @ [squote] @
           [backslash, CHR ''n''])\<rparr>" for now str_float table old
    using complete_commit_appends [OF e, of now str_float "''Sparta''"
        "\<lparr>df = table, change_log = Some old\<rparr>"]
    by (simp only: d s) simp
  with e show ?thesis by simp
qed

text \<open>
  C6. On the example reply with a line break after each line, the four scores are found
  as the example says, but Estimated Deaths and Tagline fall back to their defaults: both
  patterns end in a backslash followed by the letter n, which a reply with line breaks
  does not hold. Only when each line is followed by these two characters are the texts
  500000 and Iron Fist found. Without any mention of PBR the score is undefined and both
  commit actions leave the stores as they were.
\<close>

theorem example_reply_extraction:
  "extract_fields sample_reply =
     \<lparr>rai = Some 85, ideo = Some 7, hdr = Some 9, pbr = Some 8,
      deaths = ''Unknown'', tagline = ''Generated by GPT''\<rparr> \<and>
   extract_fields sample_marked =
     \<lparr>rai = Some 85, ideo = Some 7, hdr = Some 9, pbr = Some 8,
      deaths = ''500000'', tagline = ''Iron Fist''\<rparr> \<and>
   pbr (extract_fields sample_without_PBR) = None \<and>
   fst (chat_commit now str_float user_input sample_without_PBR st) = st \<and>
   fst (sidebar_commit now str_float user_input sample_without_PBR st) = st"
proof -
  have "\<not> complete (extract_fields sample_without_PBR)"
    by (simp add: extract_sample_without_PBR complete_def)
  then show ?thesis
    by (simp add: extract_sample_reply extract_sample_marked extract_sample_without_PBR
        incomplete_chat_commit incomplete_sidebar_commit)
qed

section \<open>Properties of the calls of the language model\<close>

text \<open>
  C7. When the remote call fails, the sidebar catches the exception, shows it as an error
  and leaves the stores as they were. The chat does not: the exception leaves the script,
  and the transcript has already been extended by the user's message.
\<close>

theorem failing_call:
  "chat_submit (\<lambda>messages. Inl exn) (c # cs) chat_history =
     (chat_history @ [(User, c # cs)], [Markdown (c # cs)], Some exn) \<and>
   sidebar_analyze (\<lambda>messages. Inl exn) rubric now str_float add_clicked (c # cs) st =
     (st, [Sidebar_Error (''API call failed: '' @ exn)], None)"
  by (simp add: chat_submit_def sidebar_analyze_def)

section \<open>Properties of the feedback viewer\<close>

lemma example_entry_read_back:
  "csv_fields (feedback_line ''2024-05-01 10:00:00.000000'' ''Sparta'' ''Good'' []) =
     [fb_Timestamp example_entry, fb_Regime example_entry, fb_Rating example_entry,
      fb_Comments example_entry]"
  by (simp add: feedback_line_def example_entry_def text_simps)

lemma csv_fields_nonempty: "csv_fields s \<noteq> []"
  by (induction s) (auto split: list.splits)




lemma length_csv_fields: "length (csv_fields s) = Suc (count_list s (CHR '',''))"
  by (induction s) (auto split: list.splits simp: csv_fields_nonempty)

lemma csv_fields_no_comma: "f \<in> set (csv_fields s) \<Longrightarrow> CHR '','' \<notin> set f"
proof (induction s arbitrary: f)
  case Nil
  then show ?case by simp
next
  case (Cons c cs)
  show ?case
  proof (cases "c = CHR '',''")
    case True
    with Cons show ?thesis by auto
  next
    case False
    obtain g gs where g: "csv_fields cs = g # gs"
      using csv_fields_nonempty [of cs] by (cases "csv_fields cs") auto
    with Cons False show ?thesis by auto
  qed
qed








text \<open>
  C10. Whenever the comment of a feedback submission holds a comma, the text written to
  the feedback log is cut by the table parser into more than four fields, and none of
  the fields is the comment: the four columns of the viewer cannot hold the submitted
  entry. The witness is the submission with the comment \<^verbatim>\<open>Too high, I think\<close>, which
  reads back as five fields.
\<close>

theorem comment_comma_breaks_round_trip:
  assumes "CHR '','' \<in> set feedback_notes"
    and "one_line (feedback_line now user_query feedback_rating feedback_notes)"
  shows "4 < length (csv_fields (feedback_line now user_query feedback_rating feedback_notes)) \<and>
         feedback_notes \<notin> set (csv_fields (feedback_line now user_query feedback_rating feedback_notes))"
proof -
  let ?line = "feedback_line now user_query feedback_rating feedback_notes"
  have "count_list ?line (CHR '','') \<ge> 3 + count_list feedback_notes (CHR '','')"
    by (simp add: feedback_line_def)
  moreover have "count_list feedback_notes (CHR '','') > 0"
    using assms(1) count_list_0_iff [of feedback_notes "CHR '',''"] by auto
  ultimately have "4 < length (csv_fields ?line)"
    by (simp add: length_csv_fields)
  moreover have "feedback_notes \<notin> set (csv_fields ?line)"
    using assms(1) csv_fields_no_comma by blast
  ultimately show ?thesis by simp
qed

theorem comment_comma_breaks_round_trip_witness:
  "CHR '','' \<in> set ''Too high, I think'' \<and>
   one_line (feedback_line ''2024-05-01 10:00:00.000000'' ''Sparta'' ''Good'' ''Too high, I think'') \<and>
   csv_fields (feedback_line ''2024-05-01 10:00:00.000000'' ''Sparta'' ''Good'' ''Too high, I think'') =
     [''2024-05-01 10:00:00.000000'', '' '' @ [squote] @ ''Sparta'' @ [squote],
      '' '' @ [squote] @ ''Good'' @ [squote], '' '' @ [squote] @ ''Too high'',
      '' I think'' @ [squote] @ backslash_n] \<and>
   4 < length (csv_fields (feedback_line ''2024-05-01 10:00:00.000000'' ''Sparta'' ''Good'' ''Too high, I think''))"
proof -
  have c: "CHR '','' \<in> set ''Too high, I think''" by simp
  have l: "one_line (feedback_line ''2024-05-01 10:00:00.000000'' ''Sparta'' ''Good'' ''Too high, I think'')"
    by (simp add: one_line_def feedback_line_def text_simps)
  have "csv_fields (feedback_line ''2024-05-01 10:00:00.000000'' ''Sparta'' ''Good'' ''Too high, I think'') =
     [''2024-05-01 10:00:00.000000'', '' '' @ [squote] @ ''Sparta'' @ [squote],
      '' '' @ [squote] @ ''Good'' @ [squote], '' '' @ [squote] @ ''Too high'',
      '' I think'' @ [squote] @ backslash_n]"
    by (simp add: feedback_line_def text_simps)
  then show ?thesis
    using comment_comma_breaks_round_trip [OF c l] c l
    by simp
qed

end
